theory Spec2Isabelle
  imports Main "HOL-Library.AList" "HOL-Library.Word"
begin

section \<open>Strings and the allow-list\<close>

text \<open>
  A JavaScript string is modelled as a \<open>string\<close>: a list of code units below 256.
  \<open>String.prototype.toLowerCase\<close> on such code units maps \<open>A\<close>..\<open>Z\<close> and the
  upper-case letters of the Latin-1 block (0xC0..0xDE without the multiplication sign
  0xD7) to the code unit 32 above, and leaves every other one alone.
\<close>

definition toLowerCase_unit :: "char \<Rightarrow> char" where
  "toLowerCase_unit c =
     (let n = (of_char c :: nat)
      in if (65 \<le> n \<and> n \<le> 90) \<or> (192 \<le> n \<and> n \<le> 222 \<and> n \<noteq> 215)
         then char_of (n + 32) else c)"

definition toLowerCase :: "string \<Rightarrow> string" where
  "toLowerCase s = map toLowerCase_unit s"

text \<open>The array \<open>SUPPORTED_FORMATS\<close> of \<open>page.ts\<close>.\<close>

definition SUPPORTED_FORMATS :: "string list" where
  "SUPPORTED_FORMATS =
     [''.ttf'', ''.otf'', ''.woff'', ''.woff2'', ''.ttc'',
      ''.eot'', ''.svg'', ''.dfont'', ''.fon'', ''.pfa'', ''.pfb'']"

text \<open>
  \<open>s.slice(a, b)\<close> for \<open>0 \<le> a\<close> and \<open>0 \<le> b\<close>, the only way the functions below
  call it: the code units from index \<open>a\<close> up to, not including, index \<open>b\<close>, and the
  empty string when \<open>b \<le> a\<close>.
\<close>

definition slice :: "string \<Rightarrow> int \<Rightarrow> int \<Rightarrow> string" where
  "slice s a b = take (nat b - nat a) (drop (nat a) s)"

text \<open>\<open>s.lastIndexOf(c)\<close> for a single code unit: \<open>-1\<close> when \<open>c\<close> is absent.\<close>

definition lastIndexOf :: "string \<Rightarrow> char \<Rightarrow> int" where
  "lastIndexOf s c =
     (if c \<in> set s
      then int (length s) - 1 - int (length (takeWhile (\<lambda>x. x \<noteq> c) (rev s)))
      else - 1)"

section \<open>The functions of \<open>node:path\<close> that \<open>page.ts\<close> calls (POSIX flavour)\<close>

text \<open>
  \<open>extname\<close>, \<open>basename\<close> and \<open>resolve\<close> are the platform's; they are embedded
  here loop by loop, with the local variables of each as a record. A loop
  \<open>for (i = path.length - 1; i >= 0; --i)\<close> is a recursion on \<open>Suc i\<close>, started at
  \<open>length path\<close>; a \<open>break\<close> returns the variables as they stand.
\<close>

subsection \<open>\<open>extname(path)\<close>\<close>

record extname_vars =
  startDot :: int
  startPart :: int
  end_pos :: int
  matchedSlash :: bool
  preDotState :: int

fun extname_loop :: "string \<Rightarrow> nat \<Rightarrow> extname_vars \<Rightarrow> extname_vars" where
  "extname_loop path 0 v = v"
| "extname_loop path (Suc i) v =
     (let code = path ! i in
      if code = CHR ''/'' then
        (if \<not> matchedSlash v then v\<lparr>startPart := int i + 1\<rparr>
         else extname_loop path i v)
      else
        (let v1 = (if end_pos v = - 1
                   then v\<lparr>matchedSlash := False, end_pos := int i + 1\<rparr> else v);
             v2 = (if code = CHR ''.'' then
                     (if startDot v1 = - 1 then v1\<lparr>startDot := int i\<rparr>
                      else if preDotState v1 \<noteq> 1 then v1\<lparr>preDotState := 1\<rparr>
                      else v1)
                   else if startDot v1 \<noteq> - 1 then v1\<lparr>preDotState := - 1\<rparr>
                   else v1)
         in extname_loop path i v2))"

definition extname :: "string \<Rightarrow> string" where
  "extname path =
     (let v = extname_loop path (length path)
                \<lparr>startDot = - 1, startPart = 0, end_pos = - 1,
                 matchedSlash = True, preDotState = 0\<rparr>
      in if startDot v = - 1 \<or> end_pos v = - 1 \<or> preDotState v = 0 \<or>
            (preDotState v = 1 \<and> startDot v = end_pos v - 1 \<and>
             startDot v = startPart v + 1)
         then []
         else slice path (startDot v) (end_pos v))"

subsection \<open>\<open>basename(path, suffix)\<close>\<close>

record basename_vars =
  b_start :: int
  b_end :: int
  b_matchedSlash :: bool
  extIdx :: int
  firstNonSlashEnd :: int

text \<open>The loop of the branch taken when the suffix is not empty and not longer than the path.\<close>

fun basename_suffix_loop :: "string \<Rightarrow> string \<Rightarrow> nat \<Rightarrow> basename_vars \<Rightarrow> basename_vars" where
  "basename_suffix_loop path suffix 0 v = v"
| "basename_suffix_loop path suffix (Suc i) v =
     (let code = path ! i in
      if code = CHR ''/'' then
        (if \<not> b_matchedSlash v then v\<lparr>b_start := int i + 1\<rparr>
         else basename_suffix_loop path suffix i v)
      else
        (let v1 = (if firstNonSlashEnd v = - 1
                   then v\<lparr>b_matchedSlash := False, firstNonSlashEnd := int i + 1\<rparr>
                   else v);
             v2 = (if extIdx v1 \<ge> 0 then
                     (if code = suffix ! nat (extIdx v1) then
                        (if extIdx v1 - 1 = - 1
                         then v1\<lparr>extIdx := extIdx v1 - 1, b_end := int i\<rparr>
                         else v1\<lparr>extIdx := extIdx v1 - 1\<rparr>)
                      else v1\<lparr>extIdx := - 1, b_end := firstNonSlashEnd v1\<rparr>)
                   else v1)
         in basename_suffix_loop path suffix i v2))"

text \<open>The loop of the other branch (no suffix to strip).\<close>

fun basename_plain_loop :: "string \<Rightarrow> nat \<Rightarrow> basename_vars \<Rightarrow> basename_vars" where
  "basename_plain_loop path 0 v = v"
| "basename_plain_loop path (Suc i) v =
     (if path ! i = CHR ''/'' then
        (if \<not> b_matchedSlash v then v\<lparr>b_start := int i + 1\<rparr>
         else basename_plain_loop path i v)
      else if b_end v = - 1
      then basename_plain_loop path i (v\<lparr>b_matchedSlash := False, b_end := int i + 1\<rparr>)
      else basename_plain_loop path i v)"

definition basename :: "string \<Rightarrow> string \<Rightarrow> string" where
  "basename path suffix =
     (let v0 = \<lparr>b_start = 0, b_end = - 1, b_matchedSlash = True,
                extIdx = int (length suffix) - 1, firstNonSlashEnd = - 1\<rparr>
      in if length suffix > 0 \<and> length suffix \<le> length path then
           (if suffix = path then []
            else
              (let v = basename_suffix_loop path suffix (length path) v0;
                   e = (if b_start v = b_end v then firstNonSlashEnd v
                        else if b_end v = - 1 then int (length path)
                        else b_end v)
               in slice path (b_start v) e))
         else
           (let v = basename_plain_loop path (length path) v0
            in if b_end v = - 1 then [] else slice path (b_start v) (b_end v)))"

subsection \<open>\<open>resolve(...paths)\<close>\<close>

record normalize_vars =
  res :: string
  lastSegmentLength :: int
  lastSlash :: int
  dots :: int

text \<open>
  One turn of the loop of \<open>normalizeString\<close>, at index \<open>i\<close> with the code unit
  \<open>code\<close>. The two \<open>continue\<close> statements leave the turn after setting
  \<open>lastSlash\<close> and \<open>dots\<close> themselves, so every branch on a separator ends with
  \<open>lastSlash = i\<close> and \<open>dots = 0\<close>.
\<close>

definition above_root :: "bool \<Rightarrow> normalize_vars \<Rightarrow> normalize_vars" where
  "above_root allowAboveRoot v =
     (if allowAboveRoot
      then v\<lparr>res := (if length (res v) > 0 then res v @ ''/..'' else ''..''),
             lastSegmentLength := 2\<rparr>
      else v)"

definition normalize_turn :: "bool \<Rightarrow> string \<Rightarrow> int \<Rightarrow> char \<Rightarrow> normalize_vars \<Rightarrow> normalize_vars" where
  "normalize_turn allowAboveRoot path i code v =
     (if code = CHR ''/'' then
        (if lastSlash v = i - 1 \<or> dots v = 1 then v\<lparr>lastSlash := i, dots := 0\<rparr>
         else if dots v = 2 then
           (if length (res v) < 2 \<or> lastSegmentLength v \<noteq> 2 \<or>
               res v ! (length (res v) - 1) \<noteq> CHR ''.'' \<or>
               res v ! (length (res v) - 2) \<noteq> CHR ''.''
            then
              (if length (res v) > 2 then
                 (let lastSlashIndex = lastIndexOf (res v) (CHR ''/'') in
                  if lastSlashIndex = - 1
                  then \<lparr>res = [], lastSegmentLength = 0, lastSlash = i, dots = 0\<rparr>
                  else
                    (let r = slice (res v) 0 lastSlashIndex
                     in \<lparr>res = r,
                         lastSegmentLength = int (length r) - 1 - lastIndexOf r (CHR ''/''),
                         lastSlash = i, dots = 0\<rparr>))
               else if length (res v) \<noteq> 0
               then \<lparr>res = [], lastSegmentLength = 0, lastSlash = i, dots = 0\<rparr>
               else (above_root allowAboveRoot v)\<lparr>lastSlash := i, dots := 0\<rparr>)
            else (above_root allowAboveRoot v)\<lparr>lastSlash := i, dots := 0\<rparr>)
         else
           v\<lparr>res := (if length (res v) > 0
                      then res v @ ''/'' @ slice path (lastSlash v + 1) i
                      else slice path (lastSlash v + 1) i),
             lastSegmentLength := i - lastSlash v - 1,
             lastSlash := i, dots := 0\<rparr>)
      else if code = CHR ''.'' \<and> dots v \<noteq> - 1 then v\<lparr>dots := dots v + 1\<rparr>
      else v\<lparr>dots := - 1\<rparr>)"

text \<open>The turns for \<open>i < path.length\<close>, over the code units still to read.\<close>

fun normalize_loop :: "bool \<Rightarrow> string \<Rightarrow> string \<Rightarrow> int \<Rightarrow> normalize_vars \<Rightarrow> normalize_vars" where
  "normalize_loop allowAboveRoot path [] i v = v"
| "normalize_loop allowAboveRoot path (code # rest) i v =
     normalize_loop allowAboveRoot path rest (i + 1) (normalize_turn allowAboveRoot path i code v)"

text \<open>
  The last turn, \<open>i = path.length\<close>: the loop stops when the last code unit read was a
  separator, and otherwise runs one more turn as if a separator followed.
\<close>

definition normalizeString :: "string \<Rightarrow> bool \<Rightarrow> string" where
  "normalizeString path allowAboveRoot =
     (let v = normalize_loop allowAboveRoot path path 0
                \<lparr>res = [], lastSegmentLength = 0, lastSlash = - 1, dots = 0\<rparr>
      in if path \<noteq> [] \<and> last path = CHR ''/'' then res v
         else res (normalize_turn allowAboveRoot path (int (length path)) (CHR ''/'') v))"

text \<open>
  The loop of \<open>resolve\<close> visits its arguments from the last to the first and then the
  working directory, until one of them is absolute; empty ones are skipped. Its list
  argument is that order of visits.
\<close>

fun resolve_loop :: "string list \<Rightarrow> string \<Rightarrow> string \<times> bool" where
  "resolve_loop [] resolvedPath = (resolvedPath, False)"
| "resolve_loop (path # rest) resolvedPath =
     (if length path = 0 then resolve_loop rest resolvedPath
      else if hd path = CHR ''/'' then (path @ ''/'' @ resolvedPath, True)
      else resolve_loop rest (path @ ''/'' @ resolvedPath))"

definition resolve :: "string \<Rightarrow> string list \<Rightarrow> string" where
  "resolve cwd args =
     (case resolve_loop (rev args @ [cwd]) [] of
        (resolvedPath, resolvedAbsolute) \<Rightarrow>
          (let r = normalizeString resolvedPath (\<not> resolvedAbsolute)
           in if resolvedAbsolute then (if length r > 0 then CHR ''/'' # r else ''/'')
              else (if length r > 0 then r else ''.'')))"

section \<open>The storage layer\<close>

text \<open>
  The file system that \<open>node:fs/promises\<close> reaches: the nodes by absolute, normalised
  path, in the order in which a directory enumerates them; the working directory of the
  process; and the operations that the storage layer refuses (permissions, device
  faults), as pairs of a system call and the path it is called on. No symbolic links.
\<close>

type_synonym byte = "8 word"

datatype node = File "byte list" | Dir

datatype syscall = Readdir | Stat | WriteFile | Unlink

text \<open>
  What the code raises. \<open>page.ts\<close> throws plain \<open>Error\<close> objects told apart by
  their message: \<open>UnsupportedFormatError\<close> is the one for an extension outside the
  allow-list and carries the extension, \<open>InvalidEncodingError\<close> the one for a payload
  that the pattern rejects. \<open>IOError\<close> is a rejection of \<open>node:fs/promises\<close>, and
  \<open>CacheLoadError\<close> an error raised by \<open>loadSingleFont\<close>.
\<close>

datatype error =
    UnsupportedFormatError string
  | InvalidEncodingError
  | IOError syscall string
  | CacheLoadError string

record fsys =
  nodes :: "(string \<times> node) list"
  cwd :: string
  denied :: "(syscall \<times> string) list"

record stats =
  isDirectory :: bool
  st_size :: nat

definition is_dir :: "fsys \<Rightarrow> string \<Rightarrow> bool" where
  "is_dir fs p = (p = ''/'' \<or> map_of (nodes fs) p = Some Dir)"

text \<open>The last component of an absolute, normalised path, and the directory it lies in.\<close>

definition last_segment :: "string \<Rightarrow> string" where
  "last_segment p = rev (takeWhile (\<lambda>c. c \<noteq> CHR ''/'') (rev p))"

definition parent_dir :: "string \<Rightarrow> string" where
  "parent_dir p =
     (let d = rev (drop 1 (dropWhile (\<lambda>c. c \<noteq> CHR ''/'') (rev p)))
      in if d = [] then ''/'' else d)"

text \<open>
  A node \<open>p\<close> is an entry of the directory \<open>dir\<close> when the path made of \<open>dir\<close> and
  the last component of \<open>p\<close> denotes \<open>p\<close>; \<open>readdir\<close> never reports \<open>.\<close> and
  \<open>..\<close>.
\<close>

definition is_entry :: "fsys \<Rightarrow> string \<Rightarrow> string \<Rightarrow> bool" where
  "is_entry fs dir p =
     (let n = last_segment p
      in n \<noteq> [] \<and> n \<noteq> ''.'' \<and> n \<noteq> ''..'' \<and> resolve (cwd fs) [dir, n] = p)"

definition dir_entries :: "fsys \<Rightarrow> string \<Rightarrow> string list" where
  "dir_entries fs dir = map last_segment (filter (is_entry fs dir) (map fst (nodes fs)))"

definition readdir :: "fsys \<Rightarrow> string \<Rightarrow> error + string list" where
  "readdir fs dir =
     (let d = resolve (cwd fs) [dir]
      in if (Readdir, d) \<in> set (denied fs) then Inl (IOError Readdir d)
         else if is_dir fs d then Inr (dir_entries fs dir)
         else Inl (IOError Readdir d))"

text \<open>
  \<open>stat\<close>, \<open>unlink\<close> and \<open>writeFile\<close> are only ever called on a result of
  \<open>resolve\<close>, so they look the path up as it is. \<open>writeFile\<close> replaces the content
  of an existing file in place and appends a new file to the enumeration; a write that
  fails is taken to leave the store as it was. The size that \<open>stat\<close> reports for a
  directory is never read by the code; it is \<open>0\<close> here.
\<close>

definition stat :: "fsys \<Rightarrow> string \<Rightarrow> error + stats" where
  "stat fs p =
     (if (Stat, p) \<in> set (denied fs) then Inl (IOError Stat p)
      else case map_of (nodes fs) p of
             None \<Rightarrow> Inl (IOError Stat p)
           | Some Dir \<Rightarrow> Inr \<lparr>isDirectory = True, st_size = 0\<rparr>
           | Some (File bytes) \<Rightarrow> Inr \<lparr>isDirectory = False, st_size = length bytes\<rparr>)"

definition unlink :: "fsys \<Rightarrow> string \<Rightarrow> error + fsys" where
  "unlink fs p =
     (if (Unlink, p) \<in> set (denied fs) then Inl (IOError Unlink p)
      else case map_of (nodes fs) p of
             Some (File bytes) \<Rightarrow> Inr (fs\<lparr>nodes := AList.delete p (nodes fs)\<rparr>)
           | _ \<Rightarrow> Inl (IOError Unlink p))"

definition writeFile :: "fsys \<Rightarrow> string \<Rightarrow> byte list \<Rightarrow> error + fsys" where
  "writeFile fs p bytes =
     (if (WriteFile, p) \<in> set (denied fs) then Inl (IOError WriteFile p)
      else if is_dir fs p then Inl (IOError WriteFile p)
      else if is_dir fs (parent_dir p)
      then Inr (fs\<lparr>nodes := AList.update p (File bytes) (nodes fs)\<rparr>)
      else Inl (IOError WriteFile p))"

definition readFile :: "fsys \<Rightarrow> string \<Rightarrow> byte list option" where
  "readFile fs p = (case map_of (nodes fs) p of Some (File bytes) \<Rightarrow> Some bytes | _ \<Rightarrow> None)"

section \<open>The collaborators of \<open>GlyphProvider\<close>\<close>

text \<open>
  \<open>FontsService\<close> (\<open>./index\<close>) is not part of the sources at hand. Its root
  directory, \<open>loadSingleFont\<close> and \<open>getFontInfo\<close> are parameters, over any type
  \<open>'c\<close> of cache states: \<open>loadSingleFont\<close> reads the store, may raise, and returns
  the cache as it leaves it. \<open>Buffer.from(s, 'base64')\<close> is a parameter as well.
\<close>

record FontInfo =
  info_dataUrl :: "string option"

record 'c FontsService =
  fontRoot :: string
  loadSingleFont :: "fsys \<Rightarrow> string \<Rightarrow> 'c \<Rightarrow> error option \<times> 'c"
  getFontInfo :: "'c \<Rightarrow> string \<Rightarrow> FontInfo option"
  bufferFromBase64 :: "string \<Rightarrow> byte list"

text \<open>\<open>fontInfo?.dataUrl\<close>, and its truthiness: present and not the empty string.\<close>

definition dataUrl_of :: "FontInfo option \<Rightarrow> string option" where
  "dataUrl_of fontInfo = (case fontInfo of None \<Rightarrow> None | Some i \<Rightarrow> info_dataUrl i)"

definition truthy :: "string option \<Rightarrow> bool" where
  "truthy u = (case u of None \<Rightarrow> False | Some s \<Rightarrow> s \<noteq> [])"

section \<open>\<open>GlyphProvider\<close>\<close>

text \<open>
  The four private operations of the class, each from its body in \<open>page.ts\<close>. The
  calls of the logger are left out: they return nothing and change neither the store
  nor the cache. The field \<open>size\<close> of \<open>GlyphFont\<close> is \<open>size'\<close> here.
\<close>

record GlyphFont =
  name :: string
  fileName :: string
  format :: string
  size' :: nat
  path :: string
  dataUrl :: "string option"

subsection \<open>\<open>listFonts\<close>\<close>

text \<open>
  The loop over the directory entries, with the array \<open>fonts\<close> built so far. An
  exception of \<open>stat\<close> leaves the loop with the array as it stands.
\<close>

fun listFonts_loop ::
  "'c FontsService \<Rightarrow> fsys \<Rightarrow> 'c \<Rightarrow> string list \<Rightarrow> GlyphFont list \<Rightarrow> error option \<times> GlyphFont list" where
  "listFonts_loop svc fs cache [] fonts = (None, fonts)"
| "listFonts_loop svc fs cache (file # files) fonts =
     (let ext = toLowerCase (extname file) in
      if ext \<notin> set SUPPORTED_FORMATS then listFonts_loop svc fs cache files fonts
      else
        (let filePath = resolve (cwd fs) [fontRoot svc, file] in
         case stat fs filePath of
           Inl err \<Rightarrow> (Some err, fonts)
         | Inr fileStats \<Rightarrow>
             if isDirectory fileStats then listFonts_loop svc fs cache files fonts
             else
               (let fontName = basename file ext;
                    fontInfo = getFontInfo svc cache fontName
                in listFonts_loop svc fs cache files
                     (fonts @ [\<lparr>name = fontName, fileName = file, format = drop 1 ext,
                                size' = st_size fileStats, path = filePath,
                                dataUrl = dataUrl_of fontInfo\<rparr>]))))"

text \<open>
  The \<open>try\<close> block and its \<open>catch\<close>, which logs and falls through to
  \<open>return fonts\<close>. The result is a sum so that a raised error would show as \<open>Inl\<close>.
\<close>

definition listFonts :: "'c FontsService \<Rightarrow> fsys \<Rightarrow> 'c \<Rightarrow> error + GlyphFont list" where
  "listFonts svc fs cache =
     (case readdir fs (fontRoot svc) of
        Inl err \<Rightarrow> Inr []
      | Inr files \<Rightarrow> Inr (snd (listFonts_loop svc fs cache files [])))"

subsection \<open>\<open>deleteFont\<close>\<close>

text \<open>
  The test of the filter: \<open>name === fontName && SUPPORTED_FORMATS.includes(ext)\<close>,
  with \<open>ext\<close> the lower-cased \<open>extname\<close> of the file and \<open>name\<close> its
  \<open>basename\<close> without \<open>ext\<close>. The loop of \<open>loadFontOnDemand\<close> applies the same
  test to each entry.
\<close>

definition matches :: "string \<Rightarrow> string \<Rightarrow> bool" where
  "matches fontName file =
     (let ext = toLowerCase (extname file);
          nm = basename file ext
      in nm = fontName \<and> ext \<in> set SUPPORTED_FORMATS)"

fun unlink_loop :: "string \<Rightarrow> fsys \<Rightarrow> string list \<Rightarrow> error option \<times> fsys" where
  "unlink_loop root fs [] = (None, fs)"
| "unlink_loop root fs (file # files) =
     (case unlink fs (resolve (cwd fs) [root, file]) of
        Inl err \<Rightarrow> (Some err, fs)
      | Inr fs' \<Rightarrow> unlink_loop root fs' files)"

definition deleteFont :: "'c FontsService \<Rightarrow> string \<Rightarrow> fsys \<Rightarrow> (error + unit) \<times> fsys" where
  "deleteFont svc fontName fs =
     (case readdir fs (fontRoot svc) of
        Inl err \<Rightarrow> (Inl err, fs)
      | Inr files \<Rightarrow>
          (let matchingFiles = filter (matches fontName) files in
           case unlink_loop (fontRoot svc) fs matchingFiles of
             (Some err, fs') \<Rightarrow> (Inl err, fs')
           | (None, fs') \<Rightarrow> (Inr (), fs')))"

subsection \<open>\<open>uploadFont\<close>\<close>

text \<open>
  \<open>base64Data.match(/^data:([^;]+);base64,(.+)$/)\<close>: the first group is the longest
  run without a semicolon, since a semicolon has to follow it; the dot of the second
  group matches anything but a line terminator. The result holds the two groups.
  In \<open>uploadFont\<close> the \<open>basename\<close> of the file name only feeds a log line and is
  left out.
\<close>

definition line_terminator :: "char \<Rightarrow> bool" where
  "line_terminator c = (c = CHR 0x0A \<or> c = CHR 0x0D)"

definition match_data_url :: "string \<Rightarrow> (string \<times> string) option" where
  "match_data_url s =
     (if take 5 s = ''data:'' then
        (let r = drop 5 s;
             mime = takeWhile (\<lambda>c. c \<noteq> CHR '';'') r;
             rest = dropWhile (\<lambda>c. c \<noteq> CHR '';'') r
         in if mime \<noteq> [] \<and> take 8 rest = '';base64,'' \<and> drop 8 rest \<noteq> [] \<and>
               list_all (\<lambda>c. \<not> line_terminator c) (drop 8 rest)
            then Some (mime, drop 8 rest) else None)
      else None)"

definition uploadFont ::
  "'c FontsService \<Rightarrow> string \<Rightarrow> string \<Rightarrow> fsys \<times> 'c \<Rightarrow> (error + unit) \<times> fsys \<times> 'c" where
  "uploadFont svc file base64Data st =
     (case st of (fs, cache) \<Rightarrow>
        (let ext = toLowerCase (extname file) in
         if ext \<notin> set SUPPORTED_FORMATS then (Inl (UnsupportedFormatError ext), fs, cache)
         else
           (case match_data_url base64Data of
              None \<Rightarrow> (Inl InvalidEncodingError, fs, cache)
            | Some (mime, base64Content) \<Rightarrow>
                (let buffer = bufferFromBase64 svc base64Content;
                     filePath = resolve (cwd fs) [fontRoot svc, file]
                 in case writeFile fs filePath buffer of
                      Inl err \<Rightarrow> (Inl err, fs, cache)
                    | Inr fs' \<Rightarrow>
                        (case loadSingleFont svc fs' filePath cache of
                           (Some err, cache') \<Rightarrow> (Inl err, fs', cache')
                         | (None, cache') \<Rightarrow> (Inr (), fs', cache'))))))"

subsection \<open>\<open>loadFontOnDemand\<close>\<close>

fun loadFontOnDemand_loop ::
  "'c FontsService \<Rightarrow> string \<Rightarrow> fsys \<Rightarrow> 'c \<Rightarrow> string list \<Rightarrow> string option \<times> 'c" where
  "loadFontOnDemand_loop svc fontName fs cache [] = (None, cache)"
| "loadFontOnDemand_loop svc fontName fs cache (file # files) =
     (if matches fontName file then
        (let filePath = resolve (cwd fs) [fontRoot svc, file] in
         case loadSingleFont svc fs filePath cache of
           (Some err, cache') \<Rightarrow> (None, cache')
         | (None, cache') \<Rightarrow>
             (let loadedFont = getFontInfo svc cache' fontName
              in (if truthy (dataUrl_of loadedFont) then dataUrl_of loadedFont else None,
                  cache')))
      else loadFontOnDemand_loop svc fontName fs cache files)"

definition loadFontOnDemand ::
  "'c FontsService \<Rightarrow> string \<Rightarrow> fsys \<times> 'c \<Rightarrow> (error + string option) \<times> 'c" where
  "loadFontOnDemand svc fontName st =
     (case st of (fs, cache) \<Rightarrow>
        (let fontInfo = getFontInfo svc cache fontName in
         if truthy (dataUrl_of fontInfo) then (Inr (dataUrl_of fontInfo), cache)
         else
           (case readdir fs (fontRoot svc) of
              Inl err \<Rightarrow> (Inr None, cache)
            | Inr files \<Rightarrow>
                (case loadFontOnDemand_loop svc fontName fs cache files of
                   (r, cache') \<Rightarrow> (Inr r, cache')))))"

section \<open>Notions of the specification\<close>

text \<open>
  The glossary's stem of a file name: the file name without its extension, the
  extension being what \<open>extname\<close> reports for it.
\<close>

definition stem :: "string \<Rightarrow> string" where
  "stem file = take (length file - length (extname file)) file"

text \<open>
  The wire format of a payload, \<open>data:<mime>;base64,<data>\<close>, in words: a media type
  that is not empty and holds no semicolon, and data that is not empty and holds no
  line terminator.
\<close>

definition is_data_url :: "string \<Rightarrow> bool" where
  "is_data_url s =
     (\<exists>mime body. s = ''data:'' @ mime @ '';base64,'' @ body \<and>
        mime \<noteq> [] \<and> CHR '';'' \<notin> set mime \<and>
        body \<noteq> [] \<and> list_all (\<lambda>c. \<not> line_terminator c) body)"

text \<open>A path lies inside a directory when it continues the directory's path below it.\<close>

definition inside_dir :: "string \<Rightarrow> string \<Rightarrow> bool" where
  "inside_dir d p =
     (let below = (if d = ''/'' then d else d @ ''/'')
      in length below < length p \<and> take (length below) p = below)"

section \<open>A concrete service and concrete stores\<close>

text \<open>
  A decoder for \<open>bufferFromBase64\<close>: the alphabet of RFC 4648 and its URL-safe
  variant, code units outside it skipped, decoding stopped at the first padding sign.
\<close>

definition unbase64 :: "char \<Rightarrow> nat option" where
  "unbase64 c =
     (let n = (of_char c :: nat)
      in if 65 \<le> n \<and> n \<le> 90 then Some (n - 65)
         else if 97 \<le> n \<and> n \<le> 122 then Some (n - 71)
         else if 48 \<le> n \<and> n \<le> 57 then Some (n + 4)
         else if c = CHR ''+'' \<or> c = CHR ''-'' then Some 62
         else if c = CHR ''/'' \<or> c = CHR ''_'' then Some 63
         else None)"

fun sextets :: "string \<Rightarrow> nat list" where
  "sextets [] = []"
| "sextets (c # cs) =
     (if c = CHR ''='' then []
      else case unbase64 c of None \<Rightarrow> sextets cs | Some v \<Rightarrow> v # sextets cs)"

fun octets :: "nat list \<Rightarrow> byte list" where
  "octets (a # b # c # d # r) =
     [of_nat (a * 4 + b div 16), of_nat ((b mod 16) * 16 + c div 4),
      of_nat ((c mod 4) * 64 + d)] @ octets r"
| "octets [a, b, c] = [of_nat (a * 4 + b div 16), of_nat ((b mod 16) * 16 + c div 4)]"
| "octets [a, b] = [of_nat (a * 4 + b div 16)]"
| "octets _ = []"

definition base64_decode :: "string \<Rightarrow> byte list" where
  "base64_decode s = octets (sextets s)"

text \<open>
  Modelled from the spec: \<open>loadSingleFont\<close> and \<open>getFontInfo\<close> of \<open>FontsService\<close>,
  whose code is not at hand. The contract of the specification: \<open>loadSingleFont\<close>
  takes an absolute file path and populates the cache entry keyed by the stem;
  \<open>getFontInfo\<close> takes a stem and returns the entry or nothing. The cache is an
  association list; loading a path that holds no file raises.
\<close>

definition load_by_stem :: "fsys \<Rightarrow> string \<Rightarrow> (string \<times> FontInfo) list \<Rightarrow> error option \<times> (string \<times> FontInfo) list" where
  "load_by_stem fs p c =
     (case readFile fs p of
        None \<Rightarrow> (Some (CacheLoadError p), c)
      | Some bytes \<Rightarrow>
          (None, AList.update (stem (last_segment p))
                   \<lparr>info_dataUrl = Some (''data:font/'' @ drop 1 (toLowerCase (extname p)) @ '';base64,...'')\<rparr> c))"

definition svc_ex :: "(string \<times> FontInfo) list FontsService" where
  "svc_ex = \<lparr>fontRoot = ''/data/fonts'', loadSingleFont = load_by_stem,
             getFontInfo = map_of, bufferFromBase64 = base64_decode\<rparr>"

text \<open>The same service with a cache that rejects every font it is asked to load.\<close>

definition svc_rejecting :: "(string \<times> FontInfo) list FontsService" where
  "svc_rejecting = svc_ex\<lparr>loadSingleFont := (\<lambda>fs p c. (Some (CacheLoadError p), c))\<rparr>"

definition fs_ex :: fsys where
  "fs_ex =
     \<lparr>nodes = [(''/data'', Dir), (''/data/fonts'', Dir),
               (''/data/fonts/arial.ttf'', File [0, 1, 0, 0]),
               (''/data/fonts/arial.woff'', File [119, 79, 70, 70, 0]),
               (''/data/fonts/arial.otf'', File [79, 84, 84, 79, 0, 0]),
               (''/data/fonts/notes.txt'', File [104, 105]),
               (''/data/fonts/old.ttf'', Dir)],
      cwd = ''/srv/bot'', denied = []\<rparr>"

text \<open>The same store, refusing to delete one file, and refusing to read the directory.\<close>

definition fs_locked :: fsys where
  "fs_locked = fs_ex\<lparr>denied := [(Unlink, ''/data/fonts/arial.woff'')]\<rparr>"

definition fs_unreadable :: fsys where
  "fs_unreadable = fs_ex\<lparr>denied := [(Readdir, ''/data/fonts'')]\<rparr>"

text \<open>A store whose only font has an upper-case extension on disk.\<close>

definition fs_upper :: fsys where
  "fs_upper =
     \<lparr>nodes = [(''/data'', Dir), (''/data/fonts'', Dir),
               (''/data/fonts/Arial.TTF'', File [0, 1, 0, 0])],
      cwd = ''/srv/bot'', denied = []\<rparr>"

section \<open>Facts about the payload pattern and the storage layer\<close>

lemma match_data_url_SomeD:
  assumes "match_data_url s = Some (mime, body)"
  shows "s = ''data:'' @ mime @ '';base64,'' @ body \<and> mime \<noteq> [] \<and> CHR '';'' \<notin> set mime \<and>
         body \<noteq> [] \<and> list_all (\<lambda>c. \<not> line_terminator c) body"
proof -
  let ?r = "drop 5 s"
  let ?rest = "dropWhile (\<lambda>c. c \<noteq> CHR '';'') ?r"
  from assms have t5: "take 5 s = ''data:''"
    and m: "mime = takeWhile (\<lambda>c. c \<noteq> CHR '';'') ?r"
    and t8: "take 8 ?rest = '';base64,''"
    and b: "body = drop 8 ?rest"
    and ne: "mime \<noteq> []" "body \<noteq> []"
    and lt: "list_all (\<lambda>c. \<not> line_terminator c) body"
    by (auto simp: match_data_url_def Let_def split: if_splits)
  have "s = take 5 s @ ?r" by simp
  also have "?r = mime @ ?rest" using m by simp
  also have "?rest = take 8 ?rest @ body" using b by simp
  finally have "s = ''data:'' @ mime @ '';base64,'' @ body" using t5 t8 by simp
  moreover have "CHR '';'' \<notin> set mime" using m by (auto dest: set_takeWhileD)
  ultimately show ?thesis using ne lt by simp
qed

lemma match_data_url_SomeI:
  assumes "s = ''data:'' @ mime @ '';base64,'' @ body" "mime \<noteq> []" "CHR '';'' \<notin> set mime"
    "body \<noteq> []" "list_all (\<lambda>c. \<not> line_terminator c) body"
  shows "match_data_url s = Some (mime, body)"
proof -
  have r: "drop 5 s = mime @ CHR '';'' # ''base64,'' @ body" using assms(1) by simp
  have tw: "takeWhile (\<lambda>c. c \<noteq> CHR '';'') (drop 5 s) = mime"
    unfolding r using assms(3) by (subst takeWhile_append2) auto
  have dw: "dropWhile (\<lambda>c. c \<noteq> CHR '';'') (drop 5 s) = '';base64,'' @ body"
    unfolding r using assms(3) by (subst dropWhile_append2) auto
  have t5: "take 5 s = ''data:''" using assms(1) by simp
  show ?thesis
    unfolding match_data_url_def Let_def tw dw using t5 assms(2,4,5) by simp
qed

text \<open>The regular expression accepts exactly the payloads of the wire format.\<close>

lemma is_data_url_iff: "is_data_url s \<longleftrightarrow> match_data_url s \<noteq> None"
proof
  assume "is_data_url s"
  then obtain mime body where "s = ''data:'' @ mime @ '';base64,'' @ body" "mime \<noteq> []"
    "CHR '';'' \<notin> set mime" "body \<noteq> []" "list_all (\<lambda>c. \<not> line_terminator c) body"
    unfolding is_data_url_def by blast
  then have "match_data_url s = Some (mime, body)" by (rule match_data_url_SomeI)
  then show "match_data_url s \<noteq> None" by simp
next
  assume "match_data_url s \<noteq> None"
  then obtain mime body where "match_data_url s = Some (mime, body)" by auto
  from match_data_url_SomeD[OF this] show "is_data_url s"
    unfolding is_data_url_def by blast
qed

lemma writeFile_InrD:
  assumes "writeFile fs p bytes = Inr fs'"
  shows "nodes fs' = AList.update p (File bytes) (nodes fs)"
    and "cwd fs' = cwd fs" and "denied fs' = denied fs"
  using assms by (auto simp: writeFile_def split: if_splits)

lemma readFile_after_writeFile:
  assumes "writeFile fs p bytes = Inr fs'"
  shows "readFile fs' p = Some bytes"
    and "q \<noteq> p \<Longrightarrow> map_of (nodes fs') q = map_of (nodes fs) q"
  using writeFile_InrD(1)[OF assms] by (simp_all add: readFile_def update_conv')

lemma stat_InrD:
  assumes "stat fs p = Inr st"
  shows "isDirectory st \<longleftrightarrow> readFile fs p = None"
    and "readFile fs p = Some bytes \<Longrightarrow> st_size st = length bytes"
  using assms by (auto simp: stat_def readFile_def split: if_splits option.splits node.splits)

text \<open>
  An entry that \<open>readdir\<close> reports resolves, against the directory, to the node it
  names; so distinct nodes have distinct entry names.
\<close>

lemma is_entryD: "is_entry fs dir p \<Longrightarrow> resolve (cwd fs) [dir, last_segment p] = p"
  by (simp add: is_entry_def Let_def)

lemma dir_entries_resolve:
  assumes "f \<in> set (dir_entries fs dir)"
  shows "resolve (cwd fs) [dir, f] \<in> fst ` set (nodes fs)"
    and "last_segment (resolve (cwd fs) [dir, f]) = f"
proof -
  from assms obtain p where p: "p \<in> fst ` set (nodes fs)" "is_entry fs dir p" "f = last_segment p"
    by (auto simp: dir_entries_def)
  from p(2) have "resolve (cwd fs) [dir, last_segment p] = p" by (rule is_entryD)
  with p show "resolve (cwd fs) [dir, f] \<in> fst ` set (nodes fs)"
    and "last_segment (resolve (cwd fs) [dir, f]) = f" by simp_all
qed

lemma distinct_dir_entries:
  assumes "distinct (map fst (nodes fs))"
  shows "distinct (dir_entries fs dir)"
proof -
  have "inj_on last_segment (set (filter (is_entry fs dir) (map fst (nodes fs))))"
  proof (rule inj_onI)
    fix p q
    assume "p \<in> set (filter (is_entry fs dir) (map fst (nodes fs)))"
      and "q \<in> set (filter (is_entry fs dir) (map fst (nodes fs)))"
      and e: "last_segment p = last_segment q"
    then have "is_entry fs dir p" "is_entry fs dir q" by simp_all
    then have "resolve (cwd fs) [dir, last_segment p] = p"
      and "resolve (cwd fs) [dir, last_segment q] = q" by (simp_all only: is_entryD)
    with e show "p = q" by metis
  qed
  with assms show ?thesis
    unfolding dir_entries_def by (simp add: distinct_map)
qed

lemma readdir_InrD: "readdir fs dir = Inr files \<Longrightarrow> files = dir_entries fs dir"
  by (auto simp: readdir_def Let_def split: if_splits)

text \<open>
  What a run of the deletion loop that raised nothing has removed: the nodes at the
  resolutions of the files it was given, and nothing else.
\<close>

lemma unlink_InrD:
  assumes "unlink fs p = Inr fs'"
  shows "nodes fs' = AList.restrict (- {p}) (nodes fs)" and "cwd fs' = cwd fs"
    and "denied fs' = denied fs"
proof -
  have "AList.delete p al = AList.restrict (- {p}) al" for al :: "(string \<times> node) list"
    by (induction al) auto
  with assms show "nodes fs' = AList.restrict (- {p}) (nodes fs)"
    by (auto simp: unlink_def split: if_splits option.splits node.splits)
  from assms show "cwd fs' = cwd fs" and "denied fs' = denied fs"
    by (auto simp: unlink_def split: if_splits option.splits node.splits)
qed

lemma unlink_loop_append:
  "unlink_loop root fs (pre @ post) =
     (case unlink_loop root fs pre of
        (Some err, fs') \<Rightarrow> (Some err, fs')
      | (None, fs') \<Rightarrow> unlink_loop root fs' post)"
  by (induction pre arbitrary: fs) (auto split: sum.splits)

lemma unlink_loop_NoneD:
  assumes "unlink_loop root fs files = (None, fs')"
  shows "nodes fs' = AList.restrict (- (\<lambda>f. resolve (cwd fs) [root, f]) ` set files) (nodes fs)"
    and "cwd fs' = cwd fs" and "denied fs' = denied fs"
  using assms
proof (induction files arbitrary: fs)
  case Nil
  {
    case 1 then show ?case by (simp add: AList.restrict_eq)
  next
    case 2 then show ?case by simp
  next
    case 3 then show ?case by simp
  }
next
  case (Cons f files)
  {
    case 1
    then obtain fs1 where u: "unlink fs (resolve (cwd fs) [root, f]) = Inr fs1"
      and l: "unlink_loop root fs1 files = (None, fs')"
      by (auto split: sum.splits)
    from Cons.IH(1)[OF l] unlink_InrD[OF u] show ?case
      by simp (rule arg_cong2[where f = AList.restrict], auto)
  next
    case 2
    then obtain fs1 where u: "unlink fs (resolve (cwd fs) [root, f]) = Inr fs1"
      and l: "unlink_loop root fs1 files = (None, fs')"
      by (auto split: sum.splits)
    from Cons.IH(2)[OF l] unlink_InrD[OF u] show ?case by simp
  next
    case 3
    then obtain fs1 where u: "unlink fs (resolve (cwd fs) [root, f]) = Inr fs1"
      and l: "unlink_loop root fs1 files = (None, fs')"
      by (auto split: sum.splits)
    from Cons.IH(3)[OF l] unlink_InrD[OF u] show ?case by simp
  }
qed

lemma resolve_not_empty: "resolve c args \<noteq> []"
  by (simp add: resolve_def Let_def split: prod.splits)

lemma resolve_absolute_file: "resolve c [root, ''/x.ttf''] = ''/x.ttf''"
  by (simp add: resolve_def normalizeString_def normalize_turn_def slice_def)

lemma not_inside_dir_x:
  assumes "d \<noteq> ''/''" and "d \<noteq> []"
  shows "\<not> inside_dir d ''/x.ttf''"
proof
  assume "inside_dir d ''/x.ttf''"
  then have l: "length d + 1 < 6" and t: "take (length d + 1) ''/x.ttf'' = d @ ''/''"
    using assms(1) by (simp_all add: inside_dir_def)
  from t have e: "last (take (length d + 1) ''/x.ttf'') = CHR ''/''" by simp
  from assms(2) have "length d \<noteq> 0" by simp
  with l consider "length d = 1" | "length d = 2" | "length d = 3" | "length d = 4" by linarith
  then show False using e by cases simp_all
qed

lemma uploadFont_InrD:
  assumes "uploadFont svc file payload (fs, cache) = (Inr (), fs', cache')"
  shows "\<exists>mime body. match_data_url payload = Some (mime, body) \<and>
           writeFile fs (resolve (cwd fs) [fontRoot svc, file]) (bufferFromBase64 svc body) = Inr fs'"
proof -
  from assms obtain mime body where m: "match_data_url payload = Some (mime, body)"
    by (auto simp: uploadFont_def Let_def split: if_splits option.splits)
  from assms m have "writeFile fs (resolve (cwd fs) [fontRoot svc, file])
                           (bufferFromBase64 svc body) = Inr fs'"
    by (auto simp: uploadFont_def Let_def split: if_splits sum.splits prod.splits option.splits)
  with m show ?thesis by blast
qed

lemma listFonts_loop_all_stat_ok:
  assumes "\<forall>f\<in>set files. \<not> isl (stat fs (resolve (cwd fs) [fontRoot svc, f]))"
  shows "listFonts_loop svc fs cache files fonts =
    (None, fonts @
       map (\<lambda>f. \<lparr>name = basename f (toLowerCase (extname f)), fileName = f,
                  format = drop 1 (toLowerCase (extname f)),
                  size' = st_size (projr (stat fs (resolve (cwd fs) [fontRoot svc, f]))),
                  path = resolve (cwd fs) [fontRoot svc, f],
                  dataUrl = dataUrl_of (getFontInfo svc cache (basename f (toLowerCase (extname f))))\<rparr>)
           (filter (\<lambda>f. toLowerCase (extname f) \<in> set SUPPORTED_FORMATS \<and>
                         \<not> isDirectory (projr (stat fs (resolve (cwd fs) [fontRoot svc, f])))) files))"
  using assms
proof (induction files arbitrary: fonts)
  case Nil
  then show ?case by simp
next
  case (Cons f files)
  from Cons.prems obtain st where st: "stat fs (resolve (cwd fs) [fontRoot svc, f]) = Inr st"
    by (cases "stat fs (resolve (cwd fs) [fontRoot svc, f])") auto
  from Cons.prems have rest: "\<forall>f\<in>set files. \<not> isl (stat fs (resolve (cwd fs) [fontRoot svc, f]))"
    by simp
  show ?case
    using Cons.IH[OF rest] st by (simp add: Let_def)
qed

lemma loadFontOnDemand_loop_absent:
  assumes "getFontInfo svc cache fontName = None"
    and "\<forall>f\<in>set files. \<not> (stem f = fontName \<and> toLowerCase (extname f) \<in> set SUPPORTED_FORMATS)"
    and "\<forall>f\<in>set files. \<forall>c n. n \<noteq> stem f \<longrightarrow>
           getFontInfo svc (snd (loadSingleFont svc fs (resolve (cwd fs) [fontRoot svc, f]) c)) n =
             getFontInfo svc c n"
  shows "fst (loadFontOnDemand_loop svc fontName fs cache files) = None"
  using assms(2,3)
proof (induction files)
  case Nil
  then show ?case by simp
next
  case (Cons f files)
  show ?case
  proof (cases "matches fontName f")
    case False
    with Cons show ?thesis by simp
  next
    case True
    then have "toLowerCase (extname f) \<in> set SUPPORTED_FORMATS" by (simp add: matches_def Let_def)
    with Cons.prems(1) have ne: "fontName \<noteq> stem f" by auto
    obtain r c' where l: "loadSingleFont svc fs (resolve (cwd fs) [fontRoot svc, f]) cache = (r, c')"
      by (cases "loadSingleFont svc fs (resolve (cwd fs) [fontRoot svc, f]) cache")
    from Cons.prems(2) ne have "getFontInfo svc (snd (loadSingleFont svc fs (resolve (cwd fs) [fontRoot svc, f]) cache)) fontName =
             getFontInfo svc cache fontName" by simp
    with l assms(1) have "getFontInfo svc c' fontName = None" by simp
    with True l show ?thesis
      by (cases r) (simp_all add: Let_def dataUrl_of_def truthy_def)
  qed
qed

text \<open>
  The concrete service keeps the contract of the cache: loading a file of the storage
  directory touches no entry but the one keyed by the stem of that file.
\<close>

lemma svc_ex_keyed_by_stem:
  assumes "f \<in> set (dir_entries fs (fontRoot svc_ex))" and "n \<noteq> stem f"
  shows "getFontInfo svc_ex (snd (loadSingleFont svc_ex fs (resolve (cwd fs) [fontRoot svc_ex, f]) c)) n =
           getFontInfo svc_ex c n"
proof -
  from dir_entries_resolve(2)[OF assms(1)] assms(2)
  have "n \<noteq> stem (last_segment (resolve (cwd fs) [fontRoot svc_ex, f]))" by simp
  then show ?thesis
    by (simp add: svc_ex_def load_by_stem_def update_conv' split: option.splits)
qed

section \<open>Names whose extension is lower-case on disk\<close>

text \<open>
  On the name of a directory entry, which holds no separator, \<open>extname\<close> returns a
  proper suffix when it returns anything, and \<open>basename\<close> strips that suffix, leaving
  the stem. So where the extension is lower-case on disk, the name that \<open>listFonts\<close>
  reports is the stem, and \<open>deleteFont\<close> removes the files with the stem it is given
  and an allow-listed extension, and only those.
\<close>

lemma extname_loop_no_slash:
  assumes "CHR ''/'' \<notin> set file"
  shows "k \<le> length file \<Longrightarrow>
     end_pos v = (if k = length file then - 1 else int (length file)) \<Longrightarrow>
     startDot v = - 1 \<or> (int k \<le> startDot v \<and> startDot v < int (length file)) \<Longrightarrow>
     (preDotState v \<noteq> 0 \<longrightarrow> startDot v \<noteq> - 1 \<and> int k < startDot v) \<Longrightarrow>
     end_pos (extname_loop file k v) = (if length file = 0 then - 1 else int (length file)) \<and>
     (startDot (extname_loop file k v) = - 1 \<or>
        (0 \<le> startDot (extname_loop file k v) \<and> startDot (extname_loop file k v) < int (length file))) \<and>
     (preDotState (extname_loop file k v) \<noteq> 0 \<longrightarrow> 0 < startDot (extname_loop file k v))"
proof (induction k arbitrary: v)
  case 0
  then show ?case by auto
next
  case (Suc k)
  from Suc.prems(1) assms have c: "file ! k \<noteq> CHR ''/''" by (metis Suc_le_lessD nth_mem)
  let ?v1 = "if end_pos v = - 1 then v\<lparr>matchedSlash := False, end_pos := int k + 1\<rparr> else v"
  let ?v2 = "if file ! k = CHR ''.'' then
                     (if startDot ?v1 = - 1 then ?v1\<lparr>startDot := int k\<rparr>
                      else if preDotState ?v1 \<noteq> 1 then ?v1\<lparr>preDotState := 1\<rparr>
                      else ?v1)
                   else if startDot ?v1 \<noteq> - 1 then ?v1\<lparr>preDotState := - 1\<rparr>
                   else ?v1"
  have step: "extname_loop file (Suc k) v = extname_loop file k ?v2"
    using c by (simp add: Let_def)
  have 1: "k \<le> length file" using Suc.prems(1) by simp
  have 2: "end_pos ?v2 = (if k = length file then - 1 else int (length file))"
    using Suc.prems(1,2) by (auto split: if_splits)
  have 3: "startDot ?v2 = - 1 \<or> (int k \<le> startDot ?v2 \<and> startDot ?v2 < int (length file))"
    using Suc.prems(1,3) by (auto split: if_splits)
  have 4: "preDotState ?v2 \<noteq> 0 \<longrightarrow> startDot ?v2 \<noteq> - 1 \<and> int k < startDot ?v2"
    using Suc.prems(1,3,4) by (auto split: if_splits)
  show ?case unfolding step by (rule Suc.IH[OF 1 2 3 4])
qed

lemma extname_is_proper_suffix:
  assumes "CHR ''/'' \<notin> set file" and "extname file \<noteq> []"
  shows "\<exists>n. 0 < n \<and> n < length file \<and> extname file = drop n file"
proof -
  let ?v0 = "\<lparr>startDot = - 1, startPart = 0, end_pos = - 1, matchedSlash = True, preDotState = 0\<rparr>"
  let ?v = "extname_loop file (length file) ?v0"
  have inv: "end_pos ?v = (if length file = 0 then - 1 else int (length file)) \<and>
     (startDot ?v = - 1 \<or> (0 \<le> startDot ?v \<and> startDot ?v < int (length file))) \<and>
     (preDotState ?v \<noteq> 0 \<longrightarrow> 0 < startDot ?v)"
    by (rule extname_loop_no_slash[OF assms(1)]) simp_all
  from assms(2) have ne: "startDot ?v \<noteq> - 1" "end_pos ?v \<noteq> - 1" "preDotState ?v \<noteq> 0"
    and e: "extname file = slice file (startDot ?v) (end_pos ?v)"
    by (auto simp: extname_def Let_def split: if_splits)
  from inv ne have sd: "0 < startDot ?v" "startDot ?v < int (length file)"
    and ep: "end_pos ?v = int (length file)" by (auto split: if_splits)
  have "extname file = drop (nat (startDot ?v)) file"
    unfolding e ep by (simp add: slice_def)
  with sd show ?thesis by (intro exI[of _ "nat (startDot ?v)"]) auto
qed

lemma basename_suffix_loop_no_slash:
  assumes "CHR ''/'' \<notin> set file" and "n < length file"
  shows "k \<le> length file \<Longrightarrow>
     b_start v = 0 \<Longrightarrow>
     firstNonSlashEnd v = (if k = length file then - 1 else int (length file)) \<Longrightarrow>
     (if n < k then extIdx v = int k - int n - 1 \<and> b_end v = - 1
      else extIdx v = - 1 \<and> b_end v = int n) \<Longrightarrow>
     b_start (basename_suffix_loop file (drop n file) k v) = 0 \<and>
     b_end (basename_suffix_loop file (drop n file) k v) = int n"
proof (induction k arbitrary: v)
  case 0
  then show ?case by (auto split: if_splits)
next
  case (Suc k)
  from Suc.prems(1) assms(1) have c: "file ! k \<noteq> CHR ''/''" by (metis Suc_le_lessD nth_mem)
  let ?v1 = "if firstNonSlashEnd v = - 1
                   then v\<lparr>b_matchedSlash := False, firstNonSlashEnd := int k + 1\<rparr>
                   else v"
  let ?v2 = "if extIdx ?v1 \<ge> 0 then
                     (if file ! k = drop n file ! nat (extIdx ?v1) then
                        (if extIdx ?v1 - 1 = - 1
                         then ?v1\<lparr>extIdx := extIdx ?v1 - 1, b_end := int k\<rparr>
                         else ?v1\<lparr>extIdx := extIdx ?v1 - 1\<rparr>)
                      else ?v1\<lparr>extIdx := - 1, b_end := firstNonSlashEnd ?v1\<rparr>)
                   else ?v1"
  have step: "basename_suffix_loop file (drop n file) (Suc k) v =
              basename_suffix_loop file (drop n file) k ?v2"
    using c by (simp add: Let_def)
  have m: "file ! k = drop n file ! (k - n)" if "n \<le> k"
    using that Suc.prems(1) by simp
  have 1: "k \<le> length file" using Suc.prems(1) by simp
  have 2: "b_start ?v2 = 0" using Suc.prems(2) by simp
  have 3: "firstNonSlashEnd ?v2 = (if k = length file then - 1 else int (length file))"
    using Suc.prems(1,3) by (auto split: if_splits)
  have 4: "if n < k then extIdx ?v2 = int k - int n - 1 \<and> b_end ?v2 = - 1
           else extIdx ?v2 = - 1 \<and> b_end ?v2 = int n"
  proof (cases "n \<le> k")
    case True
    with Suc.prems(4) have e: "extIdx v = int k - int n" "b_end v = - 1" by (auto split: if_splits)
    then have e1: "extIdx ?v1 = int k - int n" "b_end ?v1 = - 1" by auto
    have "nat (extIdx ?v1) = k - n" using e1 True by simp
    with m[OF True] have eq: "file ! k = drop n file ! nat (extIdx ?v1)" by simp
    show ?thesis
    proof (cases "n = k")
      case True
      with e1 eq show ?thesis by simp
    next
      case False
      with True e1 eq show ?thesis by simp
    qed
  next
    case False
    with Suc.prems(4) have "extIdx v = - 1" "b_end v = int n" by (auto split: if_splits)
    with False show ?thesis by simp
  qed
  show ?case unfolding step by (rule Suc.IH[OF 1 2 3 4])
qed

lemma basename_strips_suffix:
  assumes "CHR ''/'' \<notin> set file" and "0 < n" and "n < length file"
  shows "basename file (drop n file) = take n file"
proof -
  let ?v0 = "\<lparr>b_start = 0, b_end = - 1, b_matchedSlash = True,
                extIdx = int (length (drop n file)) - 1, firstNonSlashEnd = - 1\<rparr>"
  let ?v = "basename_suffix_loop file (drop n file) (length file) ?v0"
  have "b_start ?v = 0 \<and> b_end ?v = int n"
    by (rule basename_suffix_loop_no_slash[OF assms(1,3)]) (use assms(3) in auto)
  moreover have "drop n file \<noteq> file" using assms(2,3)
    by (metis length_drop diff_less less_nat_zero_code less_not_refl list.size(3) not_gr_zero)
  ultimately show ?thesis
    using assms(2,3) by (simp add: basename_def Let_def slice_def)
qed

lemma basename_extname_is_stem:
  assumes "CHR ''/'' \<notin> set file" and "extname file \<noteq> []"
  shows "basename file (extname file) = stem file"
proof -
  from extname_is_proper_suffix[OF assms] obtain n where
    n: "0 < n" "n < length file" "extname file = drop n file" by blast
  have "basename file (drop n file) = take n file"
    using assms(1) n(1,2) by (rule basename_strips_suffix)
  moreover have "stem file = take n file" using n by (simp add: stem_def)
  ultimately show ?thesis using n(3) by simp
qed

lemma no_slash_in_last_segment: "CHR ''/'' \<notin> set (last_segment p)"
  unfolding last_segment_def using set_takeWhileD[of "CHR ''/''" "\<lambda>c. c \<noteq> CHR ''/''" "rev p"] by auto

lemma no_slash_in_dir_entries: "f \<in> set (dir_entries fs dir) \<Longrightarrow> CHR ''/'' \<notin> set f"
  using no_slash_in_last_segment by (auto simp: dir_entries_def)

lemma matches_lower_case_extension:
  assumes "CHR ''/'' \<notin> set file" and "toLowerCase (extname file) = extname file"
  shows "matches fontName file \<longleftrightarrow> stem file = fontName \<and> extname file \<in> set SUPPORTED_FORMATS"
proof (cases "extname file = []")
  case True
  then show ?thesis using assms(2) by (simp add: matches_def Let_def SUPPORTED_FORMATS_def)
next
  case False
  from basename_extname_is_stem[OF assms(1) False] assms(2) show ?thesis
    by (simp add: matches_def Let_def)
qed

lemma listFonts_all_stat_ok:
  assumes "readdir fs (fontRoot svc) = Inr files"
    and "\<forall>f\<in>set files. \<not> isl (stat fs (resolve (cwd fs) [fontRoot svc, f]))"
  shows "listFonts svc fs cache = Inr
    (map (\<lambda>f. \<lparr>name = basename f (toLowerCase (extname f)), fileName = f,
                  format = drop 1 (toLowerCase (extname f)),
                  size' = st_size (projr (stat fs (resolve (cwd fs) [fontRoot svc, f]))),
                  path = resolve (cwd fs) [fontRoot svc, f],
                  dataUrl = dataUrl_of (getFontInfo svc cache (basename f (toLowerCase (extname f))))\<rparr>)
           (filter (\<lambda>f. toLowerCase (extname f) \<in> set SUPPORTED_FORMATS \<and>
                         \<not> isDirectory (projr (stat fs (resolve (cwd fs) [fontRoot svc, f])))) files))"
  using assms(1) listFonts_loop_all_stat_ok[OF assms(2), of cache "[]"]
  by (simp add: listFonts_def)

lemma listFonts_name_is_stem_for_lower_case_extension:
  assumes "readdir fs (fontRoot svc) = Inr files"
    and "\<forall>f\<in>set files. \<not> isl (stat fs (resolve (cwd fs) [fontRoot svc, f]))"
    and "listFonts svc fs cache = Inr fonts" and "g \<in> set fonts"
    and "toLowerCase (extname (fileName g)) = extname (fileName g)"
  shows "name g = stem (fileName g)"
proof -
  from assms(3,4) listFonts_all_stat_ok[OF assms(1,2), of cache]
  obtain f where f: "f \<in> set files" "toLowerCase (extname f) \<in> set SUPPORTED_FORMATS"
    and g: "name g = basename f (toLowerCase (extname f))" "fileName g = f"
    by auto
  from f(1) readdir_InrD[OF assms(1)] have s: "CHR ''/'' \<notin> set f"
    using no_slash_in_dir_entries by blast
  from f(2) have "toLowerCase (extname f) \<noteq> []" by (auto simp: SUPPORTED_FORMATS_def)
  then have "extname f \<noteq> []" by (auto simp: toLowerCase_def)
  from basename_extname_is_stem[OF s this] g assms(5) show ?thesis by simp
qed

lemma deleteFont_InrD:
  assumes "deleteFont svc fontName fs = (Inr (), fs')"
  shows "nodes fs' =
           AList.restrict
             (- (\<lambda>f. resolve (cwd fs) [fontRoot svc, f]) `
                  {f \<in> set (dir_entries fs (fontRoot svc)). matches fontName f})
             (nodes fs)"
proof -
  from assms obtain files where r: "readdir fs (fontRoot svc) = Inr files"
    by (cases "readdir fs (fontRoot svc)") (auto simp: deleteFont_def)
  with assms have "unlink_loop (fontRoot svc) fs (filter (matches fontName) files) = (None, fs')"
    by (auto simp: deleteFont_def Let_def split: prod.splits option.splits)
  from unlink_loop_NoneD(1)[OF this] readdir_InrD[OF r] show ?thesis by simp
qed

lemma deleteFont_removes_stem_for_lower_case_extensions:
  assumes "deleteFont svc fontName fs = (Inr (), fs')"
    and "\<forall>f\<in>set (dir_entries fs (fontRoot svc)). toLowerCase (extname f) = extname f"
  shows "\<forall>q. map_of (nodes fs') q =
           (if q \<in> (\<lambda>f. resolve (cwd fs) [fontRoot svc, f]) `
                     {f \<in> set (dir_entries fs (fontRoot svc)).
                        stem f = fontName \<and> extname f \<in> set SUPPORTED_FORMATS}
            then None else map_of (nodes fs) q)"
proof -
  have "{f \<in> set (dir_entries fs (fontRoot svc)). matches fontName f} =
        {f \<in> set (dir_entries fs (fontRoot svc)).
           stem f = fontName \<and> extname f \<in> set SUPPORTED_FORMATS}"
    using assms(2) matches_lower_case_extension no_slash_in_dir_entries by blast
  with deleteFont_InrD[OF assms(1)] show ?thesis by simp
qed

section \<open>\<open>uploadFont\<close>\<close>

text \<open>
  C1, as amended. When the extension is allow-listed, the payload matches the pattern
  and the write has succeeded, the result of \<open>uploadFont\<close> is decided by the cache
  load that follows: success when \<open>loadSingleFont\<close> returns, and the error that
  \<open>loadSingleFont\<close> raised otherwise, since the call stands inside the \<open>try\<close>
  block whose \<open>catch\<close> rethrows. The written file stays in the store either way.
\<close>

theorem uploadFont_result_after_write:
  assumes "toLowerCase (extname file) \<in> set SUPPORTED_FORMATS"
    and "match_data_url payload = Some (mime, body)"
    and "writeFile fs (resolve (cwd fs) [fontRoot svc, file]) (bufferFromBase64 svc body) = Inr fs'"
    and "loadSingleFont svc fs' (resolve (cwd fs) [fontRoot svc, file]) cache = (r, cache')"
  shows "uploadFont svc file payload (fs, cache) =
           ((case r of None \<Rightarrow> Inr () | Some err \<Rightarrow> Inl err), fs', cache')"
  using assms by (simp add: uploadFont_def Let_def split: option.splits)

text \<open>
  An upload that overwrites \<open>arial.ttf\<close> with the bytes \<open>ABC\<close>, to a service
  whose cache rejects the font: the file is written and the upload fails.
\<close>

theorem uploadFont_result_after_write_witness:
  "toLowerCase (extname ''arial.ttf'') \<in> set SUPPORTED_FORMATS \<and>
   match_data_url ''data:font/ttf;base64,QUJD'' = Some (''font/ttf'', ''QUJD'') \<and>
   writeFile fs_ex (resolve (cwd fs_ex) [fontRoot svc_rejecting, ''arial.ttf''])
       (bufferFromBase64 svc_rejecting ''QUJD'') =
     Inr (fs_ex\<lparr>nodes := AList.update ''/data/fonts/arial.ttf'' (File [65, 66, 67]) (nodes fs_ex)\<rparr>) \<and>
   uploadFont svc_rejecting ''arial.ttf'' ''data:font/ttf;base64,QUJD'' (fs_ex, []) =
     (Inl (CacheLoadError ''/data/fonts/arial.ttf''),
      fs_ex\<lparr>nodes := AList.update ''/data/fonts/arial.ttf'' (File [65, 66, 67]) (nodes fs_ex)\<rparr>, [])"
proof -
  let ?fs' = "fs_ex\<lparr>nodes := AList.update ''/data/fonts/arial.ttf'' (File [65, 66, 67]) (nodes fs_ex)\<rparr>"
  let ?p = "resolve (cwd fs_ex) [fontRoot svc_rejecting, ''arial.ttf'']"
  have h1: "toLowerCase (extname ''arial.ttf'') \<in> set SUPPORTED_FORMATS" by code_simp
  have h2: "match_data_url ''data:font/ttf;base64,QUJD'' = Some (''font/ttf'', ''QUJD'')"
    by code_simp
  have h3: "writeFile fs_ex ?p (bufferFromBase64 svc_rejecting ''QUJD'') = Inr ?fs'"
    by code_simp
  have h4: "loadSingleFont svc_rejecting ?fs' ?p [] =
              (Some (CacheLoadError ''/data/fonts/arial.ttf''), [])"
    by code_simp
  from uploadFont_result_after_write[OF h1 h2 h3 h4] h1 h2 h3 show ?thesis by simp
qed

text \<open>
  C1, as stated, fails: with a cache that raises on the load, the write of
  \<open>noto.otf\<close> succeeds, the file is in the store, and \<open>uploadFont\<close> fails with the
  error of the cache.
\<close>

theorem uploadFont_fails_when_cache_load_raises:
  "toLowerCase (extname ''noto.otf'') \<in> set SUPPORTED_FORMATS \<and>
   is_data_url ''data:font/otf;base64,QUJD'' \<and>
   writeFile fs_ex ''/data/fonts/noto.otf'' [65, 66, 67] =
     Inr (fs_ex\<lparr>nodes := nodes fs_ex @ [(''/data/fonts/noto.otf'', File [65, 66, 67])]\<rparr>) \<and>
   uploadFont svc_rejecting ''noto.otf'' ''data:font/otf;base64,QUJD'' (fs_ex, []) =
     (Inl (CacheLoadError ''/data/fonts/noto.otf''),
      fs_ex\<lparr>nodes := nodes fs_ex @ [(''/data/fonts/noto.otf'', File [65, 66, 67])]\<rparr>, [])"
proof -
  have "match_data_url ''data:font/otf;base64,QUJD'' \<noteq> None" by code_simp
  with is_data_url_iff[of "''data:font/otf;base64,QUJD''"]
  have "is_data_url ''data:font/otf;base64,QUJD''" by blast
  moreover have "toLowerCase (extname ''noto.otf'') \<in> set SUPPORTED_FORMATS" by code_simp
  moreover have "writeFile fs_ex ''/data/fonts/noto.otf'' [65, 66, 67] =
     Inr (fs_ex\<lparr>nodes := nodes fs_ex @ [(''/data/fonts/noto.otf'', File [65, 66, 67])]\<rparr>)"
    by code_simp
  moreover have "uploadFont svc_rejecting ''noto.otf'' ''data:font/otf;base64,QUJD'' (fs_ex, []) =
     (Inl (CacheLoadError ''/data/fonts/noto.otf''),
      fs_ex\<lparr>nodes := nodes fs_ex @ [(''/data/fonts/noto.otf'', File [65, 66, 67])]\<rparr>, [])"
    by code_simp
  ultimately show ?thesis by blast
qed

text \<open>
  C3. The write target is the resolution of the file name against the storage root,
  and nothing checks that it lies inside the storage directory. Unless the storage
  directory is the root of the file system, there is a file name with an allow-listed
  extension (an absolute path) whose target lies outside the storage directory, and
  every successful upload under that name leaves the decoded bytes there.
\<close>

theorem uploadFont_writes_outside_storage_directory:
  assumes "resolve (cwd fs) [fontRoot svc] \<noteq> ''/''"
  shows "\<exists>file. toLowerCase (extname file) \<in> set SUPPORTED_FORMATS \<and>
           \<not> inside_dir (resolve (cwd fs) [fontRoot svc]) (resolve (cwd fs) [fontRoot svc, file]) \<and>
           (\<forall>payload fs' cache'.
              uploadFont svc file payload (fs, cache) = (Inr (), fs', cache') \<longrightarrow>
              (\<exists>mime body. payload = ''data:'' @ mime @ '';base64,'' @ body \<and>
                 readFile fs' (resolve (cwd fs) [fontRoot svc, file]) =
                   Some (bufferFromBase64 svc body)))"
proof -
  let ?t = "resolve (cwd fs) [fontRoot svc, ''/x.ttf'']"
  have 1: "toLowerCase (extname ''/x.ttf'') \<in> set SUPPORTED_FORMATS" by code_simp
  have 2: "\<not> inside_dir (resolve (cwd fs) [fontRoot svc]) ?t"
    unfolding resolve_absolute_file using assms resolve_not_empty by (rule not_inside_dir_x)
  have 3: "\<exists>mime body. payload = ''data:'' @ mime @ '';base64,'' @ body \<and>
          readFile fs' ?t = Some (bufferFromBase64 svc body)"
    if "uploadFont svc ''/x.ttf'' payload (fs, cache) = (Inr (), fs', cache')"
    for payload fs' cache'
  proof -
    from uploadFont_InrD[OF that] obtain mime body where
      m: "match_data_url payload = Some (mime, body)" and
      w: "writeFile fs ?t (bufferFromBase64 svc body) = Inr fs'"
      by blast
    from match_data_url_SomeD[OF m] readFile_after_writeFile(1)[OF w] show ?thesis by blast
  qed
  from 1 2 3 show ?thesis by blast
qed

text \<open>
  In the concrete store both ways out succeed: \<open>../evil.ttf\<close> lands in
  \<open>/data\<close>, beside the storage directory \<open>/data/fonts\<close>, and \<open>/x.ttf\<close> in
  the root of the file system.
\<close>

theorem uploadFont_writes_outside_storage_directory_witness:
  "resolve (cwd fs_ex) [fontRoot svc_ex] \<noteq> ''/'' \<and>
   (\<exists>file. toLowerCase (extname file) \<in> set SUPPORTED_FORMATS \<and>
      \<not> inside_dir (resolve (cwd fs_ex) [fontRoot svc_ex]) (resolve (cwd fs_ex) [fontRoot svc_ex, file])) \<and>
   toLowerCase (extname ''../evil.ttf'') \<in> set SUPPORTED_FORMATS \<and>
   uploadFont svc_ex ''../evil.ttf'' ''data:font/ttf;base64,QUJD'' (fs_ex, []) =
     (Inr (), fs_ex\<lparr>nodes := nodes fs_ex @ [(''/data/evil.ttf'', File [65, 66, 67])]\<rparr>,
      [(''evil'', \<lparr>info_dataUrl = Some ''data:font/ttf;base64,...''\<rparr>)]) \<and>
   resolve (cwd fs_ex) [fontRoot svc_ex] = ''/data/fonts'' \<and>
   \<not> inside_dir ''/data/fonts'' ''/data/evil.ttf'' \<and>
   fst (uploadFont svc_ex ''/x.ttf'' ''data:font/ttf;base64,QUJD'' (fs_ex, [])) = Inr () \<and>
   readFile (fst (snd (uploadFont svc_ex ''/x.ttf'' ''data:font/ttf;base64,QUJD'' (fs_ex, []))))
     ''/x.ttf'' = Some [65, 66, 67]"
proof -
  have h: "resolve (cwd fs_ex) [fontRoot svc_ex] \<noteq> ''/''" by code_simp
  from uploadFont_writes_outside_storage_directory[OF h, of "[]"]
  have 1: "\<exists>file. toLowerCase (extname file) \<in> set SUPPORTED_FORMATS \<and>
      \<not> inside_dir (resolve (cwd fs_ex) [fontRoot svc_ex]) (resolve (cwd fs_ex) [fontRoot svc_ex, file])"
    by blast
  have 2: "toLowerCase (extname ''../evil.ttf'') \<in> set SUPPORTED_FORMATS" by code_simp
  have 3: "uploadFont svc_ex ''../evil.ttf'' ''data:font/ttf;base64,QUJD'' (fs_ex, []) =
     (Inr (), fs_ex\<lparr>nodes := nodes fs_ex @ [(''/data/evil.ttf'', File [65, 66, 67])]\<rparr>,
      [(''evil'', \<lparr>info_dataUrl = Some ''data:font/ttf;base64,...''\<rparr>)])" by code_simp
  have 4: "resolve (cwd fs_ex) [fontRoot svc_ex] = ''/data/fonts''" by code_simp
  have 5: "\<not> inside_dir ''/data/fonts'' ''/data/evil.ttf''" by code_simp
  have 6: "fst (uploadFont svc_ex ''/x.ttf'' ''data:font/ttf;base64,QUJD'' (fs_ex, [])) = Inr ()"
    by code_simp
  have 7: "readFile (fst (snd (uploadFont svc_ex ''/x.ttf'' ''data:font/ttf;base64,QUJD'' (fs_ex, []))))
     ''/x.ttf'' = Some [65, 66, 67]" by code_simp
  from h 1 2 3 4 5 6 7 show ?thesis by (intro conjI)
qed

text \<open>
  C6. For a file name with an allow-listed extension and a payload that is not of the
  form \<open>data:<mime>;base64,<data>\<close>, \<open>uploadFont\<close> fails with
  \<open>InvalidEncodingError\<close> and leaves the store and the cache as they were: no file
  is written.
\<close>

theorem uploadFont_rejects_malformed_payload:
  assumes "toLowerCase (extname file) \<in> set SUPPORTED_FORMATS"
    and "\<not> is_data_url payload"
  shows "uploadFont svc file payload (fs, cache) = (Inl InvalidEncodingError, fs, cache)"
proof -
  from assms(2) is_data_url_iff[of payload] have "match_data_url payload = None" by blast
  with assms(1) show ?thesis by (simp add: uploadFont_def)
qed

text \<open>
  A bare base64 string, without the \<open>data:\<close> prefix, is rejected.
\<close>

theorem uploadFont_rejects_malformed_payload_witness:
  "toLowerCase (extname ''noto.otf'') \<in> set SUPPORTED_FORMATS \<and>
   \<not> is_data_url ''QUJD'' \<and>
   uploadFont svc_ex ''noto.otf'' ''QUJD'' (fs_ex, []) = (Inl InvalidEncodingError, fs_ex, [])"
proof -
  have h1: "toLowerCase (extname ''noto.otf'') \<in> set SUPPORTED_FORMATS" by code_simp
  have "match_data_url ''QUJD'' = None" by code_simp
  with is_data_url_iff[of "''QUJD''"] have h2: "\<not> is_data_url ''QUJD''" by blast
  from uploadFont_rejects_malformed_payload[OF h1 h2, of svc_ex fs_ex "[]"] h1 h2
  show ?thesis by blast
qed

text \<open>
  C9. After a successful \<open>uploadFont\<close> the payload has the form
  \<open>data:<mime>;base64,<body>\<close>, and reading the file at the resolution of the file
  name against the storage root yields the decoding of \<open>body\<close>, whatever was at that
  path before; every other path holds what it held.
\<close>

theorem uploadFont_round_trip:
  assumes "uploadFont svc file payload (fs, cache) = (Inr (), fs', cache')"
  shows "\<exists>mime body. payload = ''data:'' @ mime @ '';base64,'' @ body \<and> CHR '';'' \<notin> set mime \<and>
           readFile fs' (resolve (cwd fs) [fontRoot svc, file]) = Some (bufferFromBase64 svc body) \<and>
           (\<forall>q. q \<noteq> resolve (cwd fs) [fontRoot svc, file] \<longrightarrow>
                  map_of (nodes fs') q = map_of (nodes fs) q)"
proof -
  from uploadFont_InrD[OF assms] obtain mime body where
    m: "match_data_url payload = Some (mime, body)" and
    w: "writeFile fs (resolve (cwd fs) [fontRoot svc, file]) (bufferFromBase64 svc body) = Inr fs'"
    by blast
  from match_data_url_SomeD[OF m] readFile_after_writeFile[OF w] show ?thesis by blast
qed

text \<open>
  Uploading \<open>QUJD\<close> as \<open>arial.ttf\<close> replaces the four bytes of the existing
  file by \<open>ABC\<close>.
\<close>

theorem uploadFont_round_trip_witness:
  "uploadFont svc_ex ''arial.ttf'' ''data:font/ttf;base64,QUJD'' (fs_ex, []) =
     (Inr (), fs_ex\<lparr>nodes := AList.update ''/data/fonts/arial.ttf'' (File [65, 66, 67]) (nodes fs_ex)\<rparr>,
      [(''arial'', \<lparr>info_dataUrl = Some ''data:font/ttf;base64,...''\<rparr>)]) \<and>
   readFile fs_ex ''/data/fonts/arial.ttf'' = Some [0, 1, 0, 0] \<and>
   (\<exists>mime body. ''data:font/ttf;base64,QUJD'' = ''data:'' @ mime @ '';base64,'' @ body \<and>
      readFile (fs_ex\<lparr>nodes := AList.update ''/data/fonts/arial.ttf'' (File [65, 66, 67]) (nodes fs_ex)\<rparr>)
        ''/data/fonts/arial.ttf'' = Some (bufferFromBase64 svc_ex body))"
proof -
  let ?fs' = "fs_ex\<lparr>nodes := AList.update ''/data/fonts/arial.ttf'' (File [65, 66, 67]) (nodes fs_ex)\<rparr>"
  have h: "uploadFont svc_ex ''arial.ttf'' ''data:font/ttf;base64,QUJD'' (fs_ex, []) =
     (Inr (), ?fs', [(''arial'', \<lparr>info_dataUrl = Some ''data:font/ttf;base64,...''\<rparr>)])"
    by code_simp
  have p: "resolve (cwd fs_ex) [fontRoot svc_ex, ''arial.ttf''] = ''/data/fonts/arial.ttf''"
    by code_simp
  have old: "readFile fs_ex ''/data/fonts/arial.ttf'' = Some [0, 1, 0, 0]" by code_simp
  from uploadFont_round_trip[OF h] h old show ?thesis unfolding p by blast
qed

section \<open>\<open>listFonts\<close>\<close>

text \<open>
  C2, at the input where the code departs from it. The storage directory holds one
  file, \<open>Arial.TTF\<close>. Its extension is allow-listed when compared without regard to
  case and its stem is \<open>Arial\<close>, but the entry of \<open>listFonts\<close> is named
  \<open>Arial.TTF\<close>: \<open>basename\<close> is given the lower-cased extension and compares it
  with regard to case, so it strips nothing. Where the extension is lower-case on
  disk the name is the stem (\<open>listFonts_name_is_stem_for_lower_case_extension\<close>).
\<close>

theorem listFonts_name_keeps_upper_case_extension:
  "toLowerCase (extname ''Arial.TTF'') \<in> set SUPPORTED_FORMATS \<and>
   stem ''Arial.TTF'' = ''Arial'' \<and>
   listFonts svc_ex fs_upper [] =
     Inr [\<lparr>name = ''Arial.TTF'', fileName = ''Arial.TTF'', format = ''ttf'', size' = 4,
           path = ''/data/fonts/Arial.TTF'', dataUrl = None\<rparr>]"
  by code_simp

text \<open>
  C4. When the storage directory can be read and every entry can be stat-ed,
  \<open>listFonts\<close> returns, in the order of the directory, one entry for each entry of
  the directory that is a file, not a directory, and whose lower-cased extension is in
  the allow-list, and no other entry. The \<open>format\<close> of an entry is the lower-cased
  extension without its dot and its \<open>size\<close> is the length of the file. When no path
  has two nodes, no file name occurs twice in the result.
\<close>

theorem listFonts_lists_font_files:
  assumes "readdir fs (fontRoot svc) = Inr files"
    and "\<forall>f\<in>set files. \<not> isl (stat fs (resolve (cwd fs) [fontRoot svc, f]))"
  shows "\<exists>fonts. listFonts svc fs cache = Inr fonts \<and>
           map fileName fonts =
             filter (\<lambda>f. toLowerCase (extname f) \<in> set SUPPORTED_FORMATS \<and>
                          readFile fs (resolve (cwd fs) [fontRoot svc, f]) \<noteq> None) files \<and>
           (\<forall>g\<in>set fonts.
              toLowerCase (extname (fileName g)) \<in> set SUPPORTED_FORMATS \<and>
              format g = drop 1 (toLowerCase (extname (fileName g))) \<and>
              map_option length (readFile fs (resolve (cwd fs) [fontRoot svc, fileName g])) =
                Some (size' g)) \<and>
           (distinct (map fst (nodes fs)) \<longrightarrow> distinct (map fileName fonts))"
proof -
  let ?p = "\<lambda>f. resolve (cwd fs) [fontRoot svc, f]"
  let ?mk = "\<lambda>f. \<lparr>name = basename f (toLowerCase (extname f)), fileName = f,
                  format = drop 1 (toLowerCase (extname f)),
                  size' = st_size (projr (stat fs (?p f))),
                  path = ?p f,
                  dataUrl = dataUrl_of (getFontInfo svc cache (basename f (toLowerCase (extname f))))\<rparr>"
  let ?keep = "\<lambda>f. toLowerCase (extname f) \<in> set SUPPORTED_FORMATS \<and>
                         \<not> isDirectory (projr (stat fs (?p f)))"
  let ?fonts = "map ?mk (filter ?keep files)"
  have st: "\<exists>st. stat fs (?p f) = Inr st" if "f \<in> set files" for f
    using assms(2) that by (cases "stat fs (?p f)") auto
  have l: "listFonts svc fs cache = Inr ?fonts"
    using assms(1) listFonts_loop_all_stat_ok[OF assms(2), of cache "[]"]
    by (simp add: listFonts_def)
  have keep: "?keep f \<longleftrightarrow> (toLowerCase (extname f) \<in> set SUPPORTED_FORMATS \<and>
                          readFile fs (?p f) \<noteq> None)" if "f \<in> set files" for f
    using st[OF that] stat_InrD(1) by fastforce
  have k: "map fileName ?fonts = filter ?keep files" by (simp add: comp_def)
  have names: "map fileName ?fonts = filter (\<lambda>f. toLowerCase (extname f) \<in> set SUPPORTED_FORMATS \<and>
                          readFile fs (?p f) \<noteq> None) files"
    unfolding k by (rule filter_cong[OF refl]) (rule keep)
  have each: "toLowerCase (extname (fileName g)) \<in> set SUPPORTED_FORMATS \<and>
              format g = drop 1 (toLowerCase (extname (fileName g))) \<and>
              map_option length (readFile fs (?p (fileName g))) = Some (size' g)"
    if "g \<in> set ?fonts" for g
  proof -
    from that obtain f where f: "f \<in> set files" "?keep f" "g = ?mk f" by auto
    from st[OF f(1)] obtain s where s: "stat fs (?p f) = Inr s" by blast
    with f(2) stat_InrD(1)[OF s] obtain bytes where b: "readFile fs (?p f) = Some bytes"
      by auto
    from stat_InrD(2)[OF s b] s b f(2,3) show ?thesis by simp
  qed
  have dist: "distinct (map fileName ?fonts)" if "distinct (map fst (nodes fs))"
    unfolding k using distinct_dir_entries[OF that, of "fontRoot svc"] readdir_InrD[OF assms(1)]
    by simp
  from l names each dist show ?thesis by blast
qed

text \<open>
  In the concrete store the three font files are listed; the text file and the
  directory \<open>old.ttf\<close> are not.
\<close>

theorem listFonts_lists_font_files_witness:
  "readdir fs_ex (fontRoot svc_ex) =
     Inr [''arial.ttf'', ''arial.woff'', ''arial.otf'', ''notes.txt'', ''old.ttf''] \<and>
   list_all (\<lambda>f. \<not> isl (stat fs_ex (resolve (cwd fs_ex) [fontRoot svc_ex, f])))
     [''arial.ttf'', ''arial.woff'', ''arial.otf'', ''notes.txt'', ''old.ttf''] \<and>
   (\<exists>fonts. listFonts svc_ex fs_ex [] = Inr fonts \<and>
      map fileName fonts = [''arial.ttf'', ''arial.woff'', ''arial.otf''] \<and>
      map format fonts = [''ttf'', ''woff'', ''otf''] \<and>
      map size' fonts = [4, 5, 6])"
proof -
  let ?files = "[''arial.ttf'', ''arial.woff'', ''arial.otf'', ''notes.txt'', ''old.ttf'']"
  have h1: "readdir fs_ex (fontRoot svc_ex) = Inr ?files" by code_simp
  have h2': "list_all (\<lambda>f. \<not> isl (stat fs_ex (resolve (cwd fs_ex) [fontRoot svc_ex, f]))) ?files"
    by code_simp
  then have h2: "\<forall>f\<in>set ?files. \<not> isl (stat fs_ex (resolve (cwd fs_ex) [fontRoot svc_ex, f]))"
    by (simp only: list_all_iff)
  from listFonts_lists_font_files[OF h1 h2, of "[]"] obtain fonts where
    f: "listFonts svc_ex fs_ex [] = Inr fonts" by blast
  have "listFonts svc_ex fs_ex [] = Inr
     [\<lparr>name = ''arial'', fileName = ''arial.ttf'', format = ''ttf'',
         size' = 4, path = ''/data/fonts/arial.ttf'', dataUrl = None\<rparr>,
      \<lparr>name = ''arial'', fileName = ''arial.woff'', format = ''woff'',
         size' = 5, path = ''/data/fonts/arial.woff'', dataUrl = None\<rparr>,
      \<lparr>name = ''arial'', fileName = ''arial.otf'', format = ''otf'',
         size' = 6, path = ''/data/fonts/arial.otf'', dataUrl = None\<rparr>]"
    by code_simp
  with f have "map fileName fonts = [''arial.ttf'', ''arial.woff'', ''arial.otf''] \<and>
      map format fonts = [''ttf'', ''woff'', ''otf''] \<and> map size' fonts = [4, 5, 6]"
    by auto
  with h1 h2' f show ?thesis by (intro conjI exI[of _ fonts]) simp_all
qed

text \<open>
  C8. \<open>listFonts\<close> never raises: whatever the store, the service and the cache, it
  returns a sequence. When reading the storage directory fails, that sequence is empty.
\<close>

theorem listFonts_never_raises:
  "(\<exists>fonts. listFonts svc fs cache = Inr fonts) \<and>
   (\<forall>err. readdir fs (fontRoot svc) = Inl err \<longrightarrow> listFonts svc fs cache = Inr [])"
  by (simp add: listFonts_def split: sum.splits)

text \<open>
  A store that refuses to read the storage directory.
\<close>

theorem listFonts_never_raises_witness:
  "readdir fs_unreadable (fontRoot svc_ex) = Inl (IOError Readdir ''/data/fonts'') \<and>
   listFonts svc_ex fs_unreadable [] = Inr []"
proof -
  have h: "readdir fs_unreadable (fontRoot svc_ex) = Inl (IOError Readdir ''/data/fonts'')"
    by code_simp
  from listFonts_never_raises[of svc_ex fs_unreadable "[]"] h show ?thesis by simp
qed

section \<open>\<open>deleteFont\<close>\<close>

text \<open>
  C5, at the input where the code departs from it. The storage directory holds one
  file, \<open>Arial.TTF\<close>, with stem \<open>Arial\<close> and an extension that is allow-listed
  when compared without regard to case. \<open>deleteFont\<close> of \<open>Arial\<close> succeeds and
  removes nothing; \<open>deleteFont\<close> of \<open>Arial.TTF\<close>, which is no stem of any file,
  removes the file. Where every extension is lower-case on disk, a successful
  \<open>deleteFont\<close> removes the files with the given stem and an allow-listed extension
  and nothing else (\<open>deleteFont_removes_stem_for_lower_case_extensions\<close>).
\<close>

theorem deleteFont_misses_upper_case_extension:
  "readdir fs_upper (fontRoot svc_ex) = Inr [''Arial.TTF''] \<and>
   toLowerCase (extname ''Arial.TTF'') \<in> set SUPPORTED_FORMATS \<and>
   stem ''Arial.TTF'' = ''Arial'' \<and>
   deleteFont svc_ex ''Arial'' fs_upper = (Inr (), fs_upper) \<and>
   deleteFont svc_ex ''Arial.TTF'' fs_upper =
     (Inr (), fs_upper\<lparr>nodes := [(''/data'', Dir), (''/data/fonts'', Dir)]\<rparr>)"
  by code_simp

text \<open>
  C7. The matching files are deleted one after the other in the order of the
  directory. When the files \<open>pre\<close> have been deleted and deleting the next one,
  \<open>file\<close>, fails, \<open>deleteFont\<close> fails with that error and the store is the one
  left by deleting \<open>pre\<close>: the files of \<open>pre\<close> are gone, and \<open>file\<close> and
  every matching file after it are still there, unchanged. The store is taken to hold
  one node per path.
\<close>

theorem deleteFont_aborts_at_first_failure:
  assumes "distinct (map fst (nodes fs))"
    and "readdir fs (fontRoot svc) = Inr files"
    and "filter (matches fontName) files = pre @ file # post"
    and "unlink_loop (fontRoot svc) fs pre = (None, fs1)"
    and "unlink fs1 (resolve (cwd fs) [fontRoot svc, file]) = Inl err"
  shows "deleteFont svc fontName fs = (Inl err, fs1) \<and>
         (\<forall>g\<in>set pre. map_of (nodes fs1) (resolve (cwd fs) [fontRoot svc, g]) = None) \<and>
         (\<forall>g\<in>set (file # post).
            map_of (nodes fs1) (resolve (cwd fs) [fontRoot svc, g]) =
              map_of (nodes fs) (resolve (cwd fs) [fontRoot svc, g]) \<and>
            map_of (nodes fs) (resolve (cwd fs) [fontRoot svc, g]) \<noteq> None)"
proof -
  let ?t = "\<lambda>f. resolve (cwd fs) [fontRoot svc, f]"
  note fs1 = unlink_loop_NoneD[OF assms(4)]
  have "unlink_loop (fontRoot svc) fs1 (file # post) = (Some err, fs1)"
    using assms(5) fs1(2) by simp
  then have "unlink_loop (fontRoot svc) fs (pre @ file # post) = (Some err, fs1)"
    using assms(4) by (simp add: unlink_loop_append)
  then have a: "deleteFont svc fontName fs = (Inl err, fs1)"
    using assms(2,3) by (simp add: deleteFont_def)
  have b: "map_of (nodes fs1) (?t g) = None" if "g \<in> set pre" for g
    using that fs1(1) by simp
  have files: "files = dir_entries fs (fontRoot svc)" using assms(2) by (rule readdir_InrD)
  have "distinct (filter (matches fontName) files)"
    unfolding files using distinct_dir_entries[OF assms(1)] by (rule distinct_filter)
  then have d: "distinct (pre @ file # post)" using assms(3) by simp
  have sub: "set (pre @ file # post) \<subseteq> set files"
    using assms(3) filter_is_subset[of "matches fontName" files] by simp
  have c: "map_of (nodes fs1) (?t g) = map_of (nodes fs) (?t g) \<and> map_of (nodes fs) (?t g) \<noteq> None"
    if g: "g \<in> set (file # post)" for g
  proof -
    from g sub have ge: "g \<in> set (dir_entries fs (fontRoot svc))" unfolding files by auto
    have "?t g \<notin> ?t ` set pre"
    proof
      assume "?t g \<in> ?t ` set pre"
      then obtain h where h: "h \<in> set pre" "?t g = ?t h" by blast
      from h(1) sub have he: "h \<in> set (dir_entries fs (fontRoot svc))" unfolding files by auto
      from dir_entries_resolve(2)[OF ge] dir_entries_resolve(2)[OF he] h(2) have "g = h"
        by metis
      with h(1) g d show False by auto
    qed
    then have "map_of (nodes fs1) (?t g) = map_of (nodes fs) (?t g)"
      using fs1(1) by simp
    moreover from dir_entries_resolve(1)[OF ge] have "map_of (nodes fs) (?t g) \<noteq> None"
      by (simp add: map_of_eq_None_iff)
    ultimately show ?thesis by simp
  qed
  from a b c show ?thesis by blast
qed

text \<open>
  Three formats of \<open>arial\<close>, the second of which cannot be deleted: the first is
  removed, the error of the second is raised, the third stays.
\<close>

theorem deleteFont_aborts_at_first_failure_witness:
  "distinct (map fst (nodes fs_locked)) \<and>
   readdir fs_locked (fontRoot svc_ex) =
     Inr [''arial.ttf'', ''arial.woff'', ''arial.otf'', ''notes.txt'', ''old.ttf''] \<and>
   filter (matches ''arial'') [''arial.ttf'', ''arial.woff'', ''arial.otf'', ''notes.txt'', ''old.ttf''] =
     [''arial.ttf''] @ ''arial.woff'' # [''arial.otf''] \<and>
   unlink_loop (fontRoot svc_ex) fs_locked [''arial.ttf''] =
     (None, fs_locked\<lparr>nodes := AList.delete ''/data/fonts/arial.ttf'' (nodes fs_locked)\<rparr>) \<and>
   deleteFont svc_ex ''arial'' fs_locked =
     (Inl (IOError Unlink ''/data/fonts/arial.woff''),
      fs_locked\<lparr>nodes := AList.delete ''/data/fonts/arial.ttf'' (nodes fs_locked)\<rparr>) \<and>
   readFile (fs_locked\<lparr>nodes := AList.delete ''/data/fonts/arial.ttf'' (nodes fs_locked)\<rparr>)
     ''/data/fonts/arial.otf'' = Some [79, 84, 84, 79, 0, 0]"
proof -
  let ?files = "[''arial.ttf'', ''arial.woff'', ''arial.otf'', ''notes.txt'', ''old.ttf'']"
  let ?fs1 = "fs_locked\<lparr>nodes := AList.delete ''/data/fonts/arial.ttf'' (nodes fs_locked)\<rparr>"
  have h1: "distinct (map fst (nodes fs_locked))" by code_simp
  have h2: "readdir fs_locked (fontRoot svc_ex) = Inr ?files" by code_simp
  have h3: "filter (matches ''arial'') ?files = [''arial.ttf''] @ ''arial.woff'' # [''arial.otf'']"
    by code_simp
  have h4: "unlink_loop (fontRoot svc_ex) fs_locked [''arial.ttf''] = (None, ?fs1)" by code_simp
  have h5: "unlink ?fs1 (resolve (cwd fs_locked) [fontRoot svc_ex, ''arial.woff'']) =
              Inl (IOError Unlink ''/data/fonts/arial.woff'')"
    by code_simp
  have r: "readFile ?fs1 ''/data/fonts/arial.otf'' = Some [79, 84, 84, 79, 0, 0]" by code_simp
  from deleteFont_aborts_at_first_failure[OF h1 h2 h3 h4 h5]
  have "deleteFont svc_ex ''arial'' fs_locked = (Inl (IOError Unlink ''/data/fonts/arial.woff''), ?fs1)"
    by blast
  with h1 h2 h3 h4 r show ?thesis by (intro conjI)
qed

section \<open>\<open>loadFontOnDemand\<close>\<close>

text \<open>
  C10. When the cache holds no entry for the name and no file of the storage
  directory has that name as its stem together with an allow-listed extension,
  \<open>loadFontOnDemand\<close> returns nothing and raises no error. The cache is taken to keep
  its contract: loading a file of the storage directory touches no entry but the one
  keyed by the stem of that file.
\<close>

theorem loadFontOnDemand_not_found:
  assumes "getFontInfo svc cache fontName = None"
    and "\<forall>f\<in>set (dir_entries fs (fontRoot svc)).
           \<not> (stem f = fontName \<and> toLowerCase (extname f) \<in> set SUPPORTED_FORMATS)"
    and "\<forall>f\<in>set (dir_entries fs (fontRoot svc)). \<forall>c n. n \<noteq> stem f \<longrightarrow>
           getFontInfo svc (snd (loadSingleFont svc fs (resolve (cwd fs) [fontRoot svc, f]) c)) n =
             getFontInfo svc c n"
  shows "fst (loadFontOnDemand svc fontName (fs, cache)) = Inr None"
proof (cases "readdir fs (fontRoot svc)")
  case (Inl err)
  with assms(1) show ?thesis
    by (simp add: loadFontOnDemand_def Let_def dataUrl_of_def truthy_def)
next
  case (Inr files)
  then have "files = dir_entries fs (fontRoot svc)" by (rule readdir_InrD)
  with loadFontOnDemand_loop_absent[OF assms] 
  have "fst (loadFontOnDemand_loop svc fontName fs cache files) = None" by simp
  moreover obtain r c' where "loadFontOnDemand_loop svc fontName fs cache files = (r, c')"
    by (cases "loadFontOnDemand_loop svc fontName fs cache files")
  ultimately show ?thesis using Inr assms(1)
    by (simp add: loadFontOnDemand_def Let_def dataUrl_of_def truthy_def)
qed

text \<open>
  The name \<open>Arial.TTF\<close> is the stem of no file, but it is what \<open>basename\<close>
  leaves of the file \<open>Arial.TTF\<close>: the file is loaded, under the key \<open>Arial\<close>,
  and the answer for \<open>Arial.TTF\<close> is still nothing.
\<close>

theorem loadFontOnDemand_not_found_witness:
  "getFontInfo svc_ex [] ''Arial.TTF'' = None \<and>
   dir_entries fs_upper (fontRoot svc_ex) = [''Arial.TTF''] \<and>
   stem ''Arial.TTF'' = ''Arial'' \<and>
   fst (loadFontOnDemand svc_ex ''Arial.TTF'' (fs_upper, [])) = Inr None"
proof -
  have h1: "getFontInfo svc_ex [] ''Arial.TTF'' = None" by code_simp
  have e: "dir_entries fs_upper (fontRoot svc_ex) = [''Arial.TTF'']" by code_simp
  have s: "stem ''Arial.TTF'' = ''Arial''" by code_simp
  have h2: "\<forall>f\<in>set (dir_entries fs_upper (fontRoot svc_ex)).
           \<not> (stem f = ''Arial.TTF'' \<and> toLowerCase (extname f) \<in> set SUPPORTED_FORMATS)"
    unfolding e using s by simp
  have h3: "\<forall>f\<in>set (dir_entries fs_upper (fontRoot svc_ex)). \<forall>c n. n \<noteq> stem f \<longrightarrow>
           getFontInfo svc_ex (snd (loadSingleFont svc_ex fs_upper (resolve (cwd fs_upper) [fontRoot svc_ex, f]) c)) n =
             getFontInfo svc_ex c n"
    using svc_ex_keyed_by_stem by blast
  from loadFontOnDemand_not_found[OF h1 h2 h3] h1 e s show ?thesis by (intro conjI)
qed

end
